theory Spec2Isabelle
  imports Complex_Main
begin

section \<open>Python values and exceptions\<close>

text \<open>
  The pipeline stages live in \<^verbatim>\<open>agent/utils/nodes.py\<close>, the job supervisor in
  \<^verbatim>\<open>main.py\<close>.  A Python \<^verbatim>\<open>str\<close> is modelled as a HOL \<open>string\<close>, one list
  element per character, so that \<^verbatim>\<open>len\<close> is \<open>length\<close> and a slice \<^verbatim>\<open>s[:n]\<close> is
  \<open>take n s\<close>.  Every exception that the modelled code can raise is a value of
  \<open>pyexn\<close>; a function that may raise returns \<open>pyexn + 'a\<close> with \<open>Inl\<close> for the raise.
\<close>

datatype pyexn =
    KeyError string
  | ValueError string
  | JSONDecodeError string
  | HTTPException nat string
  | Fault string

text \<open>
  \<open>Fault\<close> stands for any exception raised inside an external capability (the
  crawl and scrape service, the language model, the file system), with its description.
\<close>

section \<open>Batch planning (\<^verbatim>\<open>crawl\<close>)\<close>

text \<open>
  \<^verbatim>\<open>range(i, n, step)\<close> for a positive step, as the loop that the interpreter runs:
  it yields \<open>i\<close>, \<open>i + step\<close>, ... while the value is below \<open>n\<close>.
\<close>

function range_from :: "nat \<Rightarrow> nat \<Rightarrow> nat \<Rightarrow> nat list" where
  "range_from i n step =
     (if step = 0 \<or> n \<le> i then [] else i # range_from (i + step) n step)"
  by pat_completeness auto
termination
  by (relation "measure (\<lambda>(i, n, step). n - i)") auto

declare range_from.simps [simp del]

text \<open>
  \<^verbatim>\<open>range(0, n, step)\<close> for an arbitrary integer step: a zero step raises
  \<^verbatim>\<open>ValueError\<close>, a negative step counts downwards from 0 and is empty.
\<close>

definition py_range0 :: "nat \<Rightarrow> int \<Rightarrow> pyexn + nat list" where
  "py_range0 n step =
     (if step = 0 then Inl (ValueError ''range() arg 3 must not be zero'')
      else if step < 0 then Inr []
      else Inr (range_from 0 n (nat step)))"

text \<open>The slice \<^verbatim>\<open>xs[:k]\<close> for an integer \<open>k\<close>; a negative \<open>k\<close> counts from the end.\<close>

definition slice_to :: "'a list \<Rightarrow> int \<Rightarrow> 'a list" where
  "slice_to xs k = (if k < 0 then take (nat (int (length xs) + k)) xs else take (nat k) xs)"

text \<open>The slice \<^verbatim>\<open>xs[i:i + k]\<close> for \<open>i \<ge> 0\<close> and a positive \<open>k\<close>.\<close>

definition slice_from :: "'a list \<Rightarrow> nat \<Rightarrow> nat \<Rightarrow> 'a list" where
  "slice_from xs i k = take k (drop i xs)"

text \<open>
  Line 60 of \<^verbatim>\<open>nodes.py\<close>:
  \<^verbatim>\<open>[limited_urls[i:i + B] for i in range(0, len(limited_urls), B)]\<close>
  with \<open>B = int(os.getenv("BATCH_LIMIT"))\<close>.
\<close>

definition make_batches :: "string list \<Rightarrow> int \<Rightarrow> pyexn + string list list" where
  "make_batches limited_urls batch_limit =
     (case py_range0 (length limited_urls) batch_limit of
        Inl e \<Rightarrow> Inl e
      | Inr idxs \<Rightarrow> Inr (map (\<lambda>i. slice_from limited_urls i (nat batch_limit)) idxs))"


section \<open>Pipeline state (\<^verbatim>\<open>GraphState\<close>)\<close>

text \<open>
  A scraped page as the stages read it: \<^verbatim>\<open>content.metadata\<close>, \<^verbatim>\<open>metadata.url\<close>
  and \<^verbatim>\<open>content.markdown\<close> are each read behind \<^verbatim>\<open>hasattr\<close>, so each is optional.
  For \<open>metadata\<close> and \<open>markdown\<close>, which are also tested for truth, \<open>None\<close> is an
  absent attribute or the value \<^verbatim>\<open>None\<close>; for \<open>md_url\<close> it is an absent attribute.
\<close>

record doc_metadata =
  md_url :: "string option"

record document =
  metadata :: "doc_metadata option"
  markdown :: "string option"

text \<open>The document that the link crawl returns; \<open>None\<close>: no \<^verbatim>\<open>links\<close> attribute.\<close>

record crawl_document =
  links :: "string list option"

text \<open>A value produced by \<^verbatim>\<open>json.loads\<close>.\<close>

datatype json =
    JNull
  | JBool bool
  | JNum real
  | JStr string
  | JArr "json list"
  | JObj "(string \<times> json) list"

text \<open>One element of \<^verbatim>\<open>formatted_data\<close>: \<^verbatim>\<open>{"url": url, "response": ...}\<close>.\<close>

record entry =
  entry_url :: string
  response :: json

text \<open>
  The identifiers \<^verbatim>\<open>CRAWL\<close>, \<^verbatim>\<open>SCRAP\<close>, \<^verbatim>\<open>FORMAT\<close>, \<^verbatim>\<open>SAVE\<close> that the stages
  are decorated with.  \<^verbatim>\<open>failed_node\<close> holds one of them, or the empty string of
  \<^verbatim>\<open>initialize\<close>, which is \<open>None\<close> here.
\<close>

datatype stage_id = CRAWL | SCRAP | FORMAT | SAVE

record graph_state =
  url :: string
  url_batches :: "string list list"
  scraped_data :: "document list"
  formatted_data :: "entry list"
  error :: string
  retry_count :: int
  failed_node :: "stage_id option"

text \<open>\<^verbatim>\<open>initialize\<close>; the argument is \<^verbatim>\<open>state.get("url", "")\<close>.\<close>

definition initialize :: "string \<Rightarrow> graph_state" where
  "initialize input_url =
     \<lparr>url = input_url, url_batches = [], scraped_data = [], formatted_data = [],
      error = [], retry_count = 0, failed_node = None\<rparr>"

text \<open>\<^verbatim>\<open>error_handler\<close>.\<close>

definition error_handler :: "graph_state \<Rightarrow> graph_state" where
  "error_handler state = state\<lparr>retry_count := retry_count state + 1, error := []\<rparr>"

section \<open>Discover (\<^verbatim>\<open>crawl\<close>)\<close>

text \<open>
  \<open>fc_crawl\<close> is \<^verbatim>\<open>firecrawl_app.crawl\<close>: it raises, or returns a job whose
  \<^verbatim>\<open>data\<close> is absent (\<open>None\<close>) or a list of documents.  \<open>is_valid_url\<close> is the helper
  of that name, \<open>url_limit\<close> and \<open>batch_limit\<close> are \<^verbatim>\<open>int(os.getenv(...))\<close>.
\<close>

definition crawl ::
  "(string \<Rightarrow> pyexn + crawl_document list option) \<Rightarrow> (string \<Rightarrow> string \<Rightarrow> bool) \<Rightarrow>
   int \<Rightarrow> int \<Rightarrow> graph_state \<Rightarrow> pyexn + graph_state" where
  "crawl fc_crawl is_valid_url url_limit batch_limit state =
     (let input_url = url state in
      case fc_crawl input_url of
        Inl e \<Rightarrow> Inl e
      | Inr d \<Rightarrow>
          (case (case d of None \<Rightarrow> [] | Some ds \<Rightarrow> ds) of
             [] \<Rightarrow> Inr (state\<lparr>url_batches := []\<rparr>)
           | first_doc # _ \<Rightarrow>
               (let scraped_urls = (case links first_doc of None \<Rightarrow> [] | Some l \<Rightarrow> l);
                    valid_urls = filter (\<lambda>u. is_valid_url u input_url) scraped_urls;
                    limited_urls = slice_to valid_urls url_limit
                in case make_batches limited_urls batch_limit of
                     Inl e \<Rightarrow> Inl e
                   | Inr batches \<Rightarrow> Inr (state\<lparr>url_batches := batches\<rparr>))))"

section \<open>FetchBatch (\<^verbatim>\<open>scrap\<close>)\<close>

text \<open>
  \<open>batch_scrape\<close> is \<^verbatim>\<open>firecrawl_app.batch_scrape\<close>: it raises, or returns a job
  whose \<^verbatim>\<open>data\<close> is absent (\<open>None\<close>) or a list of documents.  The first batch is
  popped inside \<^verbatim>\<open>if data:\<close> only.
\<close>

definition scrap ::
  "(string list \<Rightarrow> pyexn + document list option) \<Rightarrow> graph_state \<Rightarrow> pyexn + graph_state" where
  "scrap batch_scrape state =
     (case url_batches state of
        [] \<Rightarrow> Inr (state\<lparr>scraped_data := []\<rparr>)
      | current_batch # rest \<Rightarrow>
          (case batch_scrape current_batch of
             Inl e \<Rightarrow> Inl e
           | Inr d \<Rightarrow>
               (let data = (case d of None \<Rightarrow> [] | Some ds \<Rightarrow> ds)
                in if data \<noteq> []
                   then Inr (state\<lparr>url_batches := rest, scraped_data := data\<rparr>)
                   else Inr (state\<lparr>scraped_data := []\<rparr>))))"

section \<open>Summarize (\<^verbatim>\<open>format\<close>)\<close>

definition truncate_markdown :: "string \<Rightarrow> string" where
  "truncate_markdown md = (if md \<noteq> [] \<and> length md > 2000 then take 2000 md else md)"

definition indent :: "nat \<Rightarrow> string" where
  "indent n = replicate n (CHR '' '')"

text \<open>The prompt is the f-string of the source around the truncated markdown.\<close>

definition prompt_prefix :: string where
  "prompt_prefix =
     ''\<newline>'' @ indent 20 @
     ''Analyze the provided information and generate a summarized output using the specified structure. \<newline>'' @
     indent 8 @ ''\<newline>'' @ indent 20 @ ''### Content:\<newline>'' @ indent 20"

definition prompt_suffix :: string where
  "prompt_suffix =
     ''\<newline>'' @ indent 20 @ ''\<newline>'' @ indent 20 @
     ''### Structured JSON Output (MUST be valid JSON):\<newline>'' @ indent 20 @ ''{\<newline>'' @
     indent 24 @ [CHR 0x22] @ ''title'' @ [CHR 0x22] @ '': '' @ [CHR 0x22] @
     ''A short title summarizing the topic'' @ [CHR 0x22] @ '',\<newline>'' @
     indent 24 @ [CHR 0x22] @ ''description'' @ [CHR 0x22] @ '': '' @ [CHR 0x22] @
     ''A 2/3 lines summary of the first couple of paragraphs of the markdown.'' @ [CHR 0x22] @
     ''\<newline>'' @ indent 20 @ ''}\<newline>'' @ indent 20 @ ''\<newline>'' @ indent 20 @
     ''Return ONLY the JSON object, nothing else.\<newline>'' @ indent 16"

definition summary_prompt :: "string \<Rightarrow> string" where
  "summary_prompt md = prompt_prefix @ md @ prompt_suffix"

text \<open>
  The answer of \<^verbatim>\<open>llm.invoke\<close>: \<open>None\<close> for a falsy response object, otherwise
  its \<^verbatim>\<open>content\<close>.
\<close>

record llm_response =
  content :: string

text \<open>The characters that \<^verbatim>\<open>str.strip()\<close> removes, among the first 256 code points.\<close>

definition py_isspace :: "char \<Rightarrow> bool" where
  "py_isspace c =
     ((of_char c :: nat) \<in> {9, 10, 11, 12, 13, 28, 29, 30, 31, 32, 133, 160})"

definition strip :: "string \<Rightarrow> string" where
  "strip s = rev (dropWhile py_isspace (rev (dropWhile py_isspace s)))"

text \<open>
  The external functions that \<^verbatim>\<open>format\<close> calls:
  \<^item> \<open>llm_invoke\<close> is \<^verbatim>\<open>llm.invoke\<close>, which may raise;
  \<^item> \<open>fence_search\<close> is \<^verbatim>\<open>re.search\<close> with the pattern of line 133 and
    \<^verbatim>\<open>re.DOTALL\<close>, returning \<^verbatim>\<open>group(1)\<close> of the match, \<open>None\<close> when nothing matches;
  \<^item> \<open>json_loads\<close> is \<^verbatim>\<open>json.loads\<close>, which raises \<^verbatim>\<open>JSONDecodeError\<close> on
    text that is not JSON.
\<close>

record format_env =
  llm_invoke :: "string \<Rightarrow> pyexn + llm_response option"
  fence_search :: "string \<Rightarrow> string option"
  json_loads :: "string \<Rightarrow> pyexn + json"

text \<open>Lines 130 to 138: clean the content, take the fenced object if there is one, parse.\<close>

definition parse_content :: "format_env \<Rightarrow> string \<Rightarrow> pyexn + json" where
  "parse_content env raw =
     (let content_str = strip raw;
          content_str = (case fence_search env content_str of
                           Some g \<Rightarrow> g
                         | None \<Rightarrow> content_str)
      in json_loads env content_str)"

definition fallback_response :: "string \<Rightarrow> json" where
  "fallback_response md =
     JObj [(''title'', JStr ''Error parsing content''), (''description'', JStr (take 200 md))]"

text \<open>
  What one pass through the body of the \<^verbatim>\<open>for\<close> loop does: \<^verbatim>\<open>continue\<close> without
  an entry, append an entry, or raise.
\<close>

datatype page_step = Continue | Append entry | Raise pyexn

text \<open>
  The body of the loop for one document.  The second component is the list of prompts
  handed to \<^verbatim>\<open>llm.invoke\<close> during that pass (none or one).
\<close>

definition format_page :: "format_env \<Rightarrow> document \<Rightarrow> page_step \<times> string list" where
  "format_page env c =
     (case metadata c of
        None \<Rightarrow> (Continue, [])
      | Some m \<Rightarrow>
          (let u = (case md_url m of None \<Rightarrow> [] | Some v \<Rightarrow> v);
               md = (case markdown c of None \<Rightarrow> [] | Some v \<Rightarrow> v)
           in if md = [] then (Continue, [])
              else
                (let md = truncate_markdown md;
                     prompt = summary_prompt md
                 in case llm_invoke env prompt of
                      Inl e \<Rightarrow> (Raise e, [prompt])
                    | Inr None \<Rightarrow> (Continue, [prompt])
                    | Inr (Some r) \<Rightarrow>
                        if content r = [] then (Continue, [prompt])
                        else
                          (case parse_content env (content r) of
                             Inr parsed_response \<Rightarrow>
                               (Append \<lparr>entry_url = u, response = parsed_response\<rparr>, [prompt])
                           | Inl (JSONDecodeError msg) \<Rightarrow>
                               (Append \<lparr>entry_url = u, response = fallback_response md\<rparr>,
                                [prompt])
                           | Inl e \<Rightarrow> (Raise e, [prompt])))))"

text \<open>
  The \<^verbatim>\<open>for\<close> loop over \<^verbatim>\<open>scraped_data\<close>, with the list \<^verbatim>\<open>formatted_data\<close> built
  so far and the prompts sent so far.
\<close>

fun format_loop ::
  "format_env \<Rightarrow> document list \<Rightarrow> entry list \<Rightarrow> string list \<Rightarrow> (pyexn + entry list) \<times> string list"
  where
  "format_loop env [] acc sent = (Inr acc, sent)"
| "format_loop env (c # cs) acc sent =
     (case format_page env c of
        (Continue, ps) \<Rightarrow> format_loop env cs acc (sent @ ps)
      | (Append x, ps) \<Rightarrow> format_loop env cs (acc @ [x]) (sent @ ps)
      | (Raise e, ps) \<Rightarrow> (Inl e, sent @ ps))"

text \<open>\<^verbatim>\<open>format\<close>: the new state, or the exception, and the prompts sent to the model.\<close>

definition format :: "format_env \<Rightarrow> graph_state \<Rightarrow> (pyexn + graph_state) \<times> string list" where
  "format env state =
     (case format_loop env (scraped_data state) [] [] of
        (Inr formatted, sent) \<Rightarrow> (Inr (state\<lparr>formatted_data := formatted\<rparr>), sent)
      | (Inl e, sent) \<Rightarrow> (Inl e, sent))"

section \<open>Persist (\<^verbatim>\<open>save\<close>)\<close>

record scrape_result =
  source_url :: string
  data :: "entry list"

text \<open>
  \<^verbatim>\<open>save\<close> returns \<^verbatim>\<open>{"result": output}\<close> after writing, and the state it was given
  otherwise.
\<close>

datatype save_return = Result scrape_result | State graph_state

text \<open>The \<^verbatim>\<open>result\<close> key of what the stage returned (a \<^verbatim>\<open>GraphState\<close> has none).\<close>

fun result_payload :: "save_return \<Rightarrow> scrape_result option" where
  "result_payload (Result out) = Some out"
| "result_payload (State st) = None"

text \<open>
  \<open>sink_write\<close> is opening \<^verbatim>\<open>scraped_data.json\<close> and \<^verbatim>\<open>json.dump\<close>: \<open>Some e\<close> when
  it raises.  The second component lists the records written to the file by the call.
\<close>

definition save ::
  "(scrape_result \<Rightarrow> pyexn option) \<Rightarrow> graph_state \<Rightarrow> (pyexn + save_return) \<times> scrape_result list" where
  "save sink_write state =
     (let source = url state;
          formatted = formatted_data state
      in if source \<noteq> [] \<and> formatted \<noteq> []
         then (let out = \<lparr>source_url = source, data = formatted\<rparr>
               in case sink_write out of
                    Some e \<Rightarrow> (Inl e, [])
                  | None \<Rightarrow> (Inr (Result out), [out]))
         else (Inr (State state), []))"

section \<open>Retry supervisor and pipeline state machine\<close>

text \<open>The capabilities and configuration that one stage execution meets.\<close>

record pipeline_env =
  p_fc_crawl :: "string \<Rightarrow> pyexn + crawl_document list option"
  p_is_valid_url :: "string \<Rightarrow> string \<Rightarrow> bool"
  p_url_limit :: int
  p_batch_limit :: int
  p_batch_scrape :: "string list \<Rightarrow> pyexn + document list option"
  p_format :: format_env
  p_sink_write :: "scrape_result \<Rightarrow> pyexn option"
  p_exc_str :: "pyexn \<Rightarrow> string"

text \<open>
  The body of the stage with the given identifier, run on a state: the exception, or the
  state it returns together with the \<^verbatim>\<open>result\<close> it adds (\<^verbatim>\<open>save\<close> only).
\<close>

fun run_stage ::
  "pipeline_env \<Rightarrow> stage_id \<Rightarrow> graph_state \<Rightarrow> pyexn + (graph_state \<times> scrape_result option)" where
  "run_stage env CRAWL st =
     (case crawl (p_fc_crawl env) (p_is_valid_url env) (p_url_limit env) (p_batch_limit env) st of
        Inl e \<Rightarrow> Inl e
      | Inr st' \<Rightarrow> Inr (st', None))"
| "run_stage env SCRAP st =
     (case scrap (p_batch_scrape env) st of
        Inl e \<Rightarrow> Inl e
      | Inr st' \<Rightarrow> Inr (st', None))"
| "run_stage env FORMAT st =
     (case fst (format (p_format env) st) of
        Inl e \<Rightarrow> Inl e
      | Inr st' \<Rightarrow> Inr (st', None))"
| "run_stage env SAVE st =
     (case fst (save (p_sink_write env) st) of
        Inl e \<Rightarrow> Inl e
      | Inr ret \<Rightarrow> Inr (st, result_payload ret))"

text \<open>
  Modelled from the spec: the retry supervisor, which is \<^verbatim>\<open>try_except_decorator\<close> of
  \<^verbatim>\<open>agent/utils/helpers.py\<close> and is not among the sources.  The spec (4.6 and 3): on
  successful stage completion the failure bookkeeping \<open>lastError\<close>, \<open>failedStage\<close>,
  \<open>retryCount\<close> is cleared; on a stage fault \<open>failedStage\<close> is set to the stage
  identifier and \<open>lastError\<close> to the fault description, and the pipeline state is
  otherwise left untouched.
\<close>

definition try_except_decorator ::
  "pipeline_env \<Rightarrow> stage_id \<Rightarrow> graph_state \<Rightarrow> graph_state \<times> scrape_result option" where
  "try_except_decorator env identifier state =
     (case run_stage env identifier state of
        Inr (state', payload) \<Rightarrow>
          (state'\<lparr>error := [], failed_node := None, retry_count := 0\<rparr>, payload)
      | Inl e \<Rightarrow> (state\<lparr>error := p_exc_str env e, failed_node := Some identifier\<rparr>, None))"

datatype node = Stage stage_id | ErrorHandler | Done | Aborted

text \<open>
  Modelled from the spec: the transition table of 4.6, which is the graph of
  \<^verbatim>\<open>agent/agent.py\<close> and is not among the sources.  \<open>after_stage\<close> is the column
  ``on success'' and the column ``on fault''; a stage has faulted when the supervisor
  left a \<open>failedStage\<close>.
\<close>

fun on_success :: "stage_id \<Rightarrow> graph_state \<Rightarrow> node" where
  "on_success CRAWL st = (if url_batches st \<noteq> [] then Stage SCRAP else Stage SAVE)"
| "on_success SCRAP st = Stage FORMAT"
| "on_success FORMAT st = (if url_batches st \<noteq> [] then Stage SCRAP else Stage SAVE)"
| "on_success SAVE st = Done"

definition after_stage :: "stage_id \<Rightarrow> graph_state \<Rightarrow> node" where
  "after_stage s st = (if failed_node st = None then on_success s st else ErrorHandler)"

text \<open>
  Modelled from the spec: one transition of the pipeline.  A configuration is the node
  about to run, the state and the result payload so far.  \<open>ErrorHandler\<close> runs
  \<open>error_handler\<close> (from the source) and re-enters \<open>failedStage\<close>, or ends in
  \<open>Aborted\<close> once the retry budget, a policy value, is exhausted.  \<open>Done\<close> and
  \<open>Aborted\<close> are terminal.
\<close>

type_synonym config = "node \<times> graph_state \<times> scrape_result option"

fun pipeline_step :: "int \<Rightarrow> pipeline_env \<Rightarrow> config \<Rightarrow> config option" where
  "pipeline_step budget env (Stage s, st, r) =
     (case try_except_decorator env s st of
        (st', payload) \<Rightarrow>
          Some (after_stage s st', st', (case payload of None \<Rightarrow> r | Some out \<Rightarrow> Some out)))"
| "pipeline_step budget env (ErrorHandler, st, r) =
     (case failed_node st of
        None \<Rightarrow> None
      | Some s \<Rightarrow>
          (let st' = error_handler st
           in if budget < retry_count st' then Some (Aborted, st', r)
              else Some (Stage s, st', r)))"
| "pipeline_step budget env (Done, st, r) = None"
| "pipeline_step budget env (Aborted, st, r) = None"

text \<open>
  The configurations of a run on a seed URL: it starts with Discover on the state that
  \<open>initialize\<close> builds, and every transition may meet different capabilities.
\<close>

inductive reachable :: "int \<Rightarrow> string \<Rightarrow> config \<Rightarrow> bool" for budget :: int and seed :: string
  where
  reach_start: "reachable budget seed (Stage CRAWL, initialize seed, None)"
| reach_step: "reachable budget seed c \<Longrightarrow> pipeline_step budget env c = Some c' \<Longrightarrow> reachable budget seed c'"

section \<open>Job supervisor (\<^verbatim>\<open>main.py\<close>)\<close>

datatype JobStatus = PENDING | RUNNING | COMPLETED | FAILED

text \<open>
  The \<^verbatim>\<open>result\<close> entry of a job: \<^verbatim>\<open>None\<close> at creation, later
  \<^verbatim>\<open>result.get("result", {})\<close>, the empty dictionary or the pipeline's output.
\<close>

datatype result_value = NoResult | EmptyDict | ResultDict scrape_result

record job =
  job_id :: string
  job_url :: string
  status :: JobStatus
  created_at :: string
  completed_at :: "string option"
  result :: result_value
  job_error :: "string option"

type_synonym jobs = "string \<rightharpoonup> job"

text \<open>
  What the pipeline hands back to the supervisor: \<^verbatim>\<open>graph.invoke\<close> raises, or
  returns a dictionary whose \<^verbatim>\<open>result\<close> key is absent (\<open>None\<close>) or the output.
\<close>

type_synonym graph_invoke = "string \<Rightarrow> pyexn + scrape_result option"

text \<open>
  \<^verbatim>\<open>get_job_result\<close>.  \<open>fmt_status\<close> is how the f-string prints the status,
  \<open>validate\<close> is the constructor \<^verbatim>\<open>ScrapeResultResponse(**...)\<close>.  The \<^verbatim>\<open>error\<close> key
  is always present, so \<^verbatim>\<open>job.get('error', ...)\<close> is its value, printed as
  \<^verbatim>\<open>None\<close> when it is \<^verbatim>\<open>None\<close>.
\<close>

definition get_job_result ::
  "(JobStatus \<Rightarrow> string) \<Rightarrow> (scrape_result \<Rightarrow> pyexn + 'r) \<Rightarrow> jobs \<Rightarrow> string \<Rightarrow> pyexn + 'r" where
  "get_job_result fmt_status validate jobs_store jid =
     (case jobs_store jid of
        None \<Rightarrow> Inl (HTTPException 404 ''Job not found'')
      | Some j \<Rightarrow>
          if status j = PENDING \<or> status j = RUNNING
          then Inl (HTTPException 425
                 (''Job is still '' @ fmt_status (status j) @ ''. Please wait for completion.''))
          else if status j = FAILED
          then Inl (HTTPException 500
                 (''Job failed: '' @ (case job_error j of None \<Rightarrow> ''None'' | Some e \<Rightarrow> e)))
          else (case result j of
                  ResultDict out \<Rightarrow> validate out
                | _ \<Rightarrow> Inl (HTTPException 404 ''No result found for this job'')))"

text \<open>\<^verbatim>\<open>delete_job\<close>.\<close>

definition delete_job :: "jobs \<Rightarrow> string \<Rightarrow> pyexn + jobs" where
  "delete_job jobs_store jid =
     (case jobs_store jid of
        None \<Rightarrow> Inl (HTTPException 404 ''Job not found'')
      | Some j \<Rightarrow> Inr (jobs_store(jid := None)))"

text \<open>
  \<^verbatim>\<open>run_scraping_job\<close>.  The task is suspended once, at
  \<^verbatim>\<open>await asyncio.to_thread(graph.invoke, ...)\<close>; \<open>others\<close> is what the other request
  handlers do to the store meanwhile.  \<open>now\<close> is \<^verbatim>\<open>datetime.utcnow().isoformat()\<close>
  and \<open>exc_str\<close> is \<^verbatim>\<open>str(e)\<close>.  The \<^verbatim>\<open>try\<close> block yields the store, or the
  exception together with the store at the moment of the raise.
\<close>

definition run_try ::
  "graph_invoke \<Rightarrow> string \<Rightarrow> (jobs \<Rightarrow> jobs) \<Rightarrow> jobs \<Rightarrow> string \<Rightarrow> string \<Rightarrow> (pyexn \<times> jobs) + jobs"
  where
  "run_try invoke now others jobs_store jid u =
     (case jobs_store jid of
        None \<Rightarrow> Inl (KeyError jid, jobs_store)
      | Some j \<Rightarrow>
          (let store1 = jobs_store(jid \<mapsto> j\<lparr>status := RUNNING\<rparr>);
               store2 = others store1
           in case invoke u of
                Inl e \<Rightarrow> Inl (e, store2)
              | Inr r \<Rightarrow>
                  (case store2 jid of
                     None \<Rightarrow> Inl (KeyError jid, store2)
                   | Some j2 \<Rightarrow>
                       Inr (store2(jid \<mapsto> j2\<lparr>status := COMPLETED, completed_at := Some now,
                              result := (case r of None \<Rightarrow> EmptyDict
                                         | Some out \<Rightarrow> ResultDict out)\<rparr>)))))"

definition run_except :: "(pyexn \<Rightarrow> string) \<Rightarrow> string \<Rightarrow> pyexn \<Rightarrow> jobs \<Rightarrow> string \<Rightarrow> pyexn + jobs"
  where
  "run_except exc_str now e jobs_store jid =
     (case jobs_store jid of
        None \<Rightarrow> Inl (KeyError jid)
      | Some j \<Rightarrow>
          Inr (jobs_store(jid \<mapsto> j\<lparr>status := FAILED, completed_at := Some now,
                 job_error := Some (exc_str e)\<rparr>)))"

definition run_scraping_job ::
  "graph_invoke \<Rightarrow> (pyexn \<Rightarrow> string) \<Rightarrow> string \<Rightarrow> (jobs \<Rightarrow> jobs) \<Rightarrow> jobs \<Rightarrow> string \<Rightarrow> string \<Rightarrow>
   pyexn + jobs" where
  "run_scraping_job invoke exc_str now others jobs_store jid u =
     (case run_try invoke now others jobs_store jid u of
        Inr store \<Rightarrow> Inr store
      | Inl (e, store) \<Rightarrow> run_except exc_str now e store jid)"

text \<open>
  \<^verbatim>\<open>scrape_sync\<close>: the \<^verbatim>\<open>HTTPException\<close> raised inside the \<^verbatim>\<open>try\<close> block is an
  \<^verbatim>\<open>Exception\<close> too, so the handler catches it as well.
\<close>

definition sync_try :: "graph_invoke \<Rightarrow> (scrape_result \<Rightarrow> pyexn + 'r) \<Rightarrow> string \<Rightarrow> pyexn + 'r" where
  "sync_try invoke validate url_str =
     (case invoke url_str of
        Inl e \<Rightarrow> Inl e
      | Inr None \<Rightarrow> Inl (HTTPException 500 ''Scraping completed but no data was returned'')
      | Inr (Some out) \<Rightarrow> validate out)"

definition scrape_sync ::
  "graph_invoke \<Rightarrow> (pyexn \<Rightarrow> string) \<Rightarrow> (scrape_result \<Rightarrow> pyexn + 'r) \<Rightarrow> string \<Rightarrow> pyexn + 'r" where
  "scrape_sync invoke exc_str validate url_str =
     (case sync_try invoke validate url_str of
        Inl e \<Rightarrow> Inl (HTTPException 500 (''Scraping failed: '' @ exc_str e))
      | Inr r \<Rightarrow> Inr r)"

section \<open>Entries that a run of the loop collects\<close>

text \<open>The entries appended for a list of documents, one pass of the loop body each.\<close>

fun step_entries :: "page_step \<Rightarrow> entry list" where
  "step_entries (Append x) = [x]"
| "step_entries Continue = []"
| "step_entries (Raise e) = []"

definition page_entries :: "format_env \<Rightarrow> document list \<Rightarrow> entry list" where
  "page_entries env cs = concat (map (\<lambda>c. step_entries (fst (format_page env c))) cs)"

section \<open>Example inputs\<close>

definition page_a :: document where
  "page_a = \<lparr>metadata = Some \<lparr>md_url = Some ''https://example.com/a''\<rparr>,
             markdown = Some ''hello''\<rparr>"

definition long_page :: document where
  "long_page = \<lparr>metadata = Some \<lparr>md_url = Some ''https://example.com/long''\<rparr>,
                markdown = Some (replicate 2001 (CHR ''x''))\<rparr>"

definition fetch_nothing :: "string list \<Rightarrow> pyexn + document list option" where
  "fetch_nothing batch = Inr None"

definition fetch_page_a :: "string list \<Rightarrow> pyexn + document list option" where
  "fetch_page_a batch = Inr (Some [page_a])"

definition answer_empty :: "string \<Rightarrow> pyexn + llm_response option" where
  "answer_empty prompt = Inr (Some \<lparr>content = []\<rparr>)"

definition answer_prose :: "string \<Rightarrow> pyexn + llm_response option" where
  "answer_prose prompt = Inr (Some \<lparr>content = ''Sorry, no summary.''\<rparr>)"

definition no_fence :: "string \<Rightarrow> string option" where
  "no_fence s = None"

definition not_json :: "string \<Rightarrow> pyexn + json" where
  "not_json s = Inl (JSONDecodeError ''Expecting value'')"

definition env_empty :: format_env where
  "env_empty = \<lparr>llm_invoke = answer_empty, fence_search = no_fence, json_loads = not_json\<rparr>"

definition env_prose :: format_env where
  "env_prose = \<lparr>llm_invoke = answer_prose, fence_search = no_fence, json_loads = not_json\<rparr>"

definition state_one_batch :: graph_state where
  "state_one_batch = (initialize ''https://example.com'')\<lparr>url_batches := [[''a'']]\<rparr>"

definition state_page_a :: graph_state where
  "state_page_a = (initialize ''https://example.com'')\<lparr>scraped_data := [page_a]\<rparr>"

definition state_long_page :: graph_state where
  "state_long_page = (initialize ''https://example.com'')\<lparr>scraped_data := [long_page]\<rparr>"

definition entry_a :: entry where
  "entry_a = \<lparr>entry_url = ''https://example.com/a'',
              response = JObj [(''title'', JStr ''T''), (''description'', JStr ''D'')]\<rparr>"

definition state_summarised :: graph_state where
  "state_summarised = (initialize ''https://example.com'')\<lparr>formatted_data := [entry_a]\<rparr>"

definition sink_ok :: "scrape_result \<Rightarrow> pyexn option" where
  "sink_ok out = None"

fun show_exn :: "pyexn \<Rightarrow> string" where
  "show_exn (KeyError k) = k"
| "show_exn (ValueError m) = m"
| "show_exn (JSONDecodeError m) = m"
| "show_exn (HTTPException code detail) = detail"
| "show_exn (Fault m) = m"

fun show_status :: "JobStatus \<Rightarrow> string" where
  "show_status PENDING = ''pending''"
| "show_status RUNNING = ''running''"
| "show_status COMPLETED = ''completed''"
| "show_status FAILED = ''failed''"

definition accept :: "scrape_result \<Rightarrow> pyexn + scrape_result" where
  "accept out = Inr out"

definition job_pending :: job where
  "job_pending = \<lparr>job_id = ''job-1'', job_url = ''https://example.com'', status = PENDING,
                  created_at = ''2024-01-01T00:00:00'', completed_at = None,
                  result = NoResult, job_error = None\<rparr>"

definition job_failed :: job where
  "job_failed = \<lparr>job_id = ''job-2'', job_url = ''https://example.com'', status = FAILED,
                 created_at = ''2024-01-01T00:00:00'',
                 completed_at = Some ''2024-01-01T00:00:09'',
                 result = NoResult, job_error = Some ''boom''\<rparr>"

definition store_two :: jobs where
  "store_two = [''job-1'' \<mapsto> job_pending, ''job-2'' \<mapsto> job_failed]"

definition invoke_no_result :: graph_invoke where
  "invoke_no_result u = Inr None"

text \<open>A \<^verbatim>\<open>DELETE /jobs/job-1\<close> request served while the run is suspended.\<close>

definition delete_meanwhile :: "jobs \<Rightarrow> jobs" where
  "delete_meanwhile jobs_store =
     (case delete_job jobs_store ''job-1'' of Inr store \<Rightarrow> store | Inl e \<Rightarrow> jobs_store)"

definition crawl_down :: "string \<Rightarrow> pyexn + crawl_document list option" where
  "crawl_down u = Inl (Fault ''service down'')"

definition any_url :: "string \<Rightarrow> string \<Rightarrow> bool" where
  "any_url u seed = True"

definition env_down :: pipeline_env where
  "env_down = \<lparr>p_fc_crawl = crawl_down, p_is_valid_url = any_url, p_url_limit = 10,
               p_batch_limit = 2, p_batch_scrape = fetch_nothing, p_format = env_empty,
               p_sink_write = sink_ok, p_exc_str = show_exn\<rparr>"

section \<open>Batch planner: properties\<close>

lemma range_from_unfold:
  "0 < step \<Longrightarrow> i < n \<Longrightarrow> range_from i n step = i # range_from (i + step) n step"
  by (subst range_from.simps) simp

lemma range_from_done: "n \<le> i \<Longrightarrow> range_from i n step = []"
  by (subst range_from.simps) simp

lemma concat_slices:
  "0 < k \<Longrightarrow> concat (map (\<lambda>i. slice_from xs i k) (range_from i (length xs) k)) = drop i xs"
proof (induction i "length xs" k rule: range_from.induct)
  case (1 i step)
  show ?case
  proof (cases "i < length xs")
    case True
    have "take step (drop i xs) @ drop (i + step) xs = take step (drop i xs) @ drop step (drop i xs)"
      by (simp add: add.commute)
    also have "\<dots> = drop i xs"
      by (rule append_take_drop_id)
    finally show ?thesis
      using 1 True by (simp add: range_from_unfold slice_from_def)
  next
    case False
    then show ?thesis by (simp add: range_from_done)
  qed
qed

lemma slices_bounded:
  "0 < k \<Longrightarrow> b \<in> set (map (\<lambda>i. slice_from xs i k) (range_from i (length xs) k))
     \<Longrightarrow> b \<noteq> [] \<and> length b \<le> k"
proof (induction i "length xs" k rule: range_from.induct)
  case (1 i step)
  show ?case
  proof (cases "i < length xs")
    case True
    with 1 show ?thesis
      by (auto simp: range_from_unfold slice_from_def)
  next
    case False
    with 1 show ?thesis by (simp add: range_from_done)
  qed
qed

lemma ceil_div_step:
  fixes m k :: nat
  assumes "0 < k" "0 < m"
  shows "(m + k - 1) div k = Suc ((m - k + k - 1) div k)"
proof (cases "m \<le> k")
  case True
  have "k \<le> m + k - 1" "m + k - 1 < k + k"
    using assms True by arith+
  then have "(m + k - 1) div k = 1"
    by (intro div_nat_eqI) simp_all
  moreover have "(m - k + k - 1) div k = 0"
    using True assms by simp
  ultimately show ?thesis by simp
next
  case False
  then have "m + k - 1 = (m - k + k - 1) + k"
    using assms by arith
  then have "(m + k - 1) div k = ((m - k + k - 1) + k) div k"
    by simp
  also have "\<dots> = (m - k + k - 1) div k + 1"
    using assms by (intro div_add_self2) simp
  finally show ?thesis by simp
qed

lemma length_range_from:
  "0 < k \<Longrightarrow> length (range_from i n k) = (n - i + k - 1) div k"
proof (induction i n k rule: range_from.induct)
  case (1 i n step)
  show ?case
  proof (cases "i < n")
    case True
    then have "(n - i + step - 1) div step = Suc ((n - i - step + step - 1) div step)"
      using 1(2) by (intro ceil_div_step) simp_all
    moreover have "n - i - step = n - (i + step)"
      by simp
    ultimately show ?thesis
      using 1 True by (simp add: range_from_unfold)
  next
    case False
    then have "n - i + step - 1 < step" using 1(2) by arith
    with False show ?thesis by (simp add: range_from_done)
  qed
qed

lemma ceil_div_nat:
  fixes n k :: nat
  assumes "0 < k"
  shows "\<lceil>real n / real k\<rceil> = int ((n + k - 1) div k)"
proof -
  define q where "q = (n + k - 1) div k"
  have m: "n + k - 1 = q * k + (n + k - 1) mod k"
    by (simp add: q_def)
  have r: "(n + k - 1) mod k < k"
    using assms by simp
  have up: "n \<le> q * k"
    using m r assms by arith
  have lo: "q * k < n + k"
    using m r assms by arith
  have "real n \<le> real (q * k)"
    using up by (simp only: of_nat_le_iff)
  then have 1: "real n / real k \<le> real q"
    using assms by (simp add: pos_divide_le_eq)
  have "real (q * k) < real (n + k)"
    using lo by (simp only: of_nat_less_iff)
  then have "(real q - 1) * real k < real n"
    by (simp add: algebra_simps)
  then have 2: "real q - 1 < real n / real k"
    using assms by (simp add: pos_less_divide_eq)
  have "\<lceil>real n / real k\<rceil> = int q"
    using 1 2 by (intro ceiling_unique) simp_all
  then show ?thesis by (simp add: q_def)
qed

text \<open>
  C5.  For every non-empty URL sequence and every batch size of at least 1, the batch
  planning step of \<^verbatim>\<open>crawl\<close> returns batches whose concatenation in order is the
  input sequence, every batch is non-empty and no longer than the batch size, and the
  number of batches is the ceiling of the length divided by the batch size.
\<close>

theorem make_batches_partition:
  assumes "urls \<noteq> []" and "1 \<le> batch_size"
  shows "\<exists>batches. make_batches urls batch_size = Inr batches
           \<and> concat batches = urls
           \<and> (\<forall>b \<in> set batches. b \<noteq> [] \<and> int (length b) \<le> batch_size)
           \<and> int (length batches) = \<lceil>real (length urls) / real_of_int batch_size\<rceil>"
proof -
  define k where "k = nat batch_size"
  have k: "0 < k" "batch_size = int k"
    using assms(2) by (simp_all add: k_def)
  define batches where
    "batches = map (\<lambda>i. slice_from urls i k) (range_from 0 (length urls) k)"
  have mb: "make_batches urls batch_size = Inr batches"
    using k by (simp add: make_batches_def py_range0_def batches_def)
  have c: "concat batches = urls"
    using concat_slices [OF k(1), of urls 0] by (simp add: batches_def)
  have b: "\<forall>b \<in> set batches. b \<noteq> [] \<and> int (length b) \<le> batch_size"
    using slices_bounded [OF k(1), of _ urls 0] k(2) unfolding batches_def by fastforce
  have "length batches = (length urls + k - 1) div k"
    using length_range_from [OF k(1), of 0 "length urls"] by (simp add: batches_def)
  then have l: "int (length batches) = \<lceil>real (length urls) / real_of_int batch_size\<rceil>"
    using ceil_div_nat [OF k(1), of "length urls"] k(2) by simp
  show ?thesis using mb c b l by blast
qed

theorem make_batches_partition_witness:
  "[''a'', ''b'', ''c''] \<noteq> [] \<and> (1::int) \<le> 2
   \<and> make_batches [''a'', ''b'', ''c''] 2 = Inr [[''a'', ''b''], [''c'']]
   \<and> (\<exists>batches. make_batches [''a'', ''b'', ''c''] 2 = Inr batches
           \<and> concat batches = [''a'', ''b'', ''c'']
           \<and> (\<forall>b \<in> set batches. b \<noteq> [] \<and> int (length b) \<le> 2)
           \<and> int (length batches) = \<lceil>real (length [''a'', ''b'', ''c'']) / real_of_int 2\<rceil>)"
proof -
  have h1: "[''a'', ''b'', ''c''] \<noteq> []" by simp
  have h2: "(1::int) \<le> 2" by simp
  have e: "make_batches [''a'', ''b'', ''c''] 2 = Inr [[''a'', ''b''], [''c'']]"
    by (simp add: make_batches_def py_range0_def slice_from_def range_from.simps)
  show ?thesis
    using make_batches_partition [OF h1 h2] e h1 h2 by blast
qed

section \<open>FetchBatch: properties\<close>

text \<open>
  C1 (counterexample).  The state has one planned batch and the fetch capability returns
  no data: \<^verbatim>\<open>scrap\<close> succeeds, \<open>scraped_data\<close> is empty, and the batch is still the
  first element of \<open>url_batches\<close>.
\<close>

theorem scrap_no_data_keeps_batch:
  "url_batches state_one_batch = [[''a'']]
   \<and> fetch_nothing [''a''] = Inr None
   \<and> scrap fetch_nothing state_one_batch = Inr (state_one_batch\<lparr>scraped_data := []\<rparr>)
   \<and> url_batches (state_one_batch\<lparr>scraped_data := []\<rparr>) = [[''a'']]
   \<and> url_batches (state_one_batch\<lparr>scraped_data := []\<rparr>) \<noteq> tl (url_batches state_one_batch)"
  by (simp add: scrap_def fetch_nothing_def state_one_batch_def initialize_def)

text \<open>
  C1 (amended).  For every pipeline state with a non-empty \<open>url_batches\<close>, a successful
  \<^verbatim>\<open>scrap\<close> removes the first batch exactly when the fetch capability returns data
  for it, and \<open>scraped_data\<close> becomes that data; when the capability returns no data,
  \<open>scraped_data\<close> becomes empty and \<open>url_batches\<close> is left as it was.
\<close>

theorem scrap_pops_iff_data:
  assumes "url_batches st = b # rest" and "batch_scrape b = Inr d"
  shows "(\<forall>ds. d = Some ds \<and> ds \<noteq> [] \<longrightarrow>
            scrap batch_scrape st = Inr (st\<lparr>url_batches := rest, scraped_data := ds\<rparr>))
         \<and> (d = None \<or> d = Some [] \<longrightarrow>
            scrap batch_scrape st = Inr (st\<lparr>scraped_data := []\<rparr>)
            \<and> url_batches (st\<lparr>scraped_data := []\<rparr>) = b # rest)"
  using assms by (auto simp: scrap_def)

theorem scrap_pops_iff_data_witness:
  "url_batches state_one_batch = [''a''] # [] \<and> fetch_page_a [''a''] = Inr (Some [page_a])
   \<and> [page_a] \<noteq> []
   \<and> scrap fetch_page_a state_one_batch
       = Inr (state_one_batch\<lparr>url_batches := [], scraped_data := [page_a]\<rparr>)
   \<and> fetch_nothing [''a''] = Inr None
   \<and> scrap fetch_nothing state_one_batch = Inr (state_one_batch\<lparr>scraped_data := []\<rparr>)
   \<and> url_batches (state_one_batch\<lparr>scraped_data := []\<rparr>) = [''a''] # []"
proof -
  have h1: "url_batches state_one_batch = [''a''] # []"
    by (simp add: state_one_batch_def)
  have h2: "fetch_page_a [''a''] = Inr (Some [page_a])"
    by (simp add: fetch_page_a_def)
  have h3: "fetch_nothing [''a''] = Inr None"
    by (simp add: fetch_nothing_def)
  show ?thesis
    using scrap_pops_iff_data [of state_one_batch "[''a'']" "[]" fetch_page_a "Some [page_a]"]
      scrap_pops_iff_data [of state_one_batch "[''a'']" "[]" fetch_nothing None] h1 h2 h3
    by simp
qed

section \<open>Summarize: properties\<close>

lemma format_loop_fst_sent:
  "fst (format_loop env cs acc s) = fst (format_loop env cs acc s')"
proof (induction cs arbitrary: acc s s')
  case Nil
  show ?case by simp
next
  case (Cons c cs)
  obtain stp ps where fp: "format_page env c = (stp, ps)"
    by (cases "format_page env c")
  show ?case
  proof (cases stp)
    case Continue
    with fp Cons [of acc "s @ ps" "s' @ ps"] show ?thesis by simp
  next
    case (Append x)
    with fp Cons [of "acc @ [x]" "s @ ps" "s' @ ps"] show ?thesis by simp
  next
    case (Raise e)
    with fp show ?thesis by simp
  qed
qed

lemma format_loop_Inr:
  "fst (format_loop env cs acc s) = Inr out \<Longrightarrow> out = acc @ page_entries env cs"
proof (induction cs arbitrary: acc s)
  case Nil
  then show ?case by (simp add: page_entries_def)
next
  case (Cons c cs)
  obtain stp ps where fp: "format_page env c = (stp, ps)"
    by (cases "format_page env c")
  show ?case
  proof (cases stp)
    case Continue
    with fp Cons.prems have "fst (format_loop env cs acc (s @ ps)) = Inr out" by simp
    from Cons.IH [OF this] fp Continue show ?thesis by (simp add: page_entries_def)
  next
    case (Append x)
    with fp Cons.prems have "fst (format_loop env cs (acc @ [x]) (s @ ps)) = Inr out" by simp
    from Cons.IH [OF this] fp Append show ?thesis by (simp add: page_entries_def)
  next
    case (Raise e)
    with fp Cons.prems show ?thesis by simp
  qed
qed

lemma format_loop_Inl:
  "fst (format_loop env cs acc s) = Inl e \<Longrightarrow> \<exists>c \<in> set cs. fst (format_page env c) = Raise e"
proof (induction cs arbitrary: acc s)
  case Nil
  then show ?case by simp
next
  case (Cons c cs)
  obtain stp ps where fp: "format_page env c = (stp, ps)"
    by (cases "format_page env c")
  show ?case
  proof (cases stp)
    case Continue
    with fp Cons.prems have "fst (format_loop env cs acc (s @ ps)) = Inl e" by simp
    from Cons.IH [OF this] show ?thesis by auto
  next
    case (Append x)
    with fp Cons.prems have "fst (format_loop env cs (acc @ [x]) (s @ ps)) = Inl e" by simp
    from Cons.IH [OF this] show ?thesis by auto
  next
    case (Raise e')
    with fp Cons.prems show ?thesis by simp
  qed
qed

lemma format_loop_sent:
  "p \<in> set (snd (format_loop env cs acc s)) \<Longrightarrow>
     p \<in> set s \<or> (\<exists>c \<in> set cs. p \<in> set (snd (format_page env c)))"
proof (induction cs arbitrary: acc s)
  case Nil
  then show ?case by simp
next
  case (Cons c cs)
  obtain stp ps where fp: "format_page env c = (stp, ps)"
    by (cases "format_page env c")
  show ?case
  proof (cases stp)
    case Continue
    with fp Cons.prems have "p \<in> set (snd (format_loop env cs acc (s @ ps)))" by simp
    from Cons.IH [OF this] fp show ?thesis by auto
  next
    case (Append x)
    with fp Cons.prems have "p \<in> set (snd (format_loop env cs (acc @ [x]) (s @ ps)))" by simp
    from Cons.IH [OF this] fp show ?thesis by auto
  next
    case (Raise e)
    with fp Cons.prems show ?thesis by auto
  qed
qed

lemma format_page_sent:
  "p \<in> set (snd (format_page env c)) \<Longrightarrow>
     \<exists>md. markdown c = Some md \<and> md \<noteq> [] \<and> p = summary_prompt (truncate_markdown md)"
  by (auto simp: format_page_def Let_def
      split: option.splits if_splits sum.splits pyexn.splits)

lemma format_fst:
  "fst (format env st) = Inr st' \<Longrightarrow>
     fst (format_loop env (scraped_data st) [] []) = Inr (formatted_data st')"
  by (auto simp: format_def split: prod.splits sum.splits)

lemma format_fst_Inl:
  "fst (format env st) = Inl e \<Longrightarrow> fst (format_loop env (scraped_data st) [] []) = Inl e"
  by (auto simp: format_def split: prod.splits sum.splits)

lemma format_snd:
  "snd (format env st) = snd (format_loop env (scraped_data st) [] [])"
  by (auto simp: format_def split: prod.splits sum.splits)

lemma page_entries_append:
  "page_entries env (cs1 @ cs2) = page_entries env cs1 @ page_entries env cs2"
  by (simp add: page_entries_def)

lemma page_entries_Cons:
  "page_entries env (c # cs) = step_entries (fst (format_page env c)) @ page_entries env cs"
  by (simp add: page_entries_def)


text \<open>
  C3 (counterexample).  One page with metadata and content, and a model that answers
  with empty content: \<^verbatim>\<open>format\<close> succeeds and \<open>formatted_data\<close> is empty, so no
  fallback summary was recorded for the page.
\<close>

theorem format_empty_answer_drops_page:
  "scraped_data state_page_a = [page_a]
   \<and> llm_invoke env_empty (summary_prompt ''hello'') = Inr (Some \<lparr>content = []\<rparr>)
   \<and> fst (format env_empty state_page_a) = Inr (state_page_a\<lparr>formatted_data := []\<rparr>)
   \<and> formatted_data (state_page_a\<lparr>formatted_data := []\<rparr>) = []"
  by (simp add: format_def format_page_def state_page_a_def page_a_def env_empty_def
      answer_empty_def initialize_def truncate_markdown_def)

text \<open>
  C3 (amended).  For every page processed by \<^verbatim>\<open>format\<close> that has metadata and
  content, if the summarization capability returns no response or a response with empty
  content, the page is skipped: the loop continues without an entry for it, and on
  success \<open>formatted_data\<close> consists of the entries of the pages before it followed by
  the entries of the pages after it.
\<close>

theorem format_skips_empty_answer:
  assumes "scraped_data st = cs1 @ c # cs2"
    and "metadata c = Some m" and "markdown c = Some md" and "md \<noteq> []"
    and "llm_invoke env (summary_prompt (truncate_markdown md)) = Inr None
         \<or> (\<exists>r. llm_invoke env (summary_prompt (truncate_markdown md)) = Inr (Some r)
                 \<and> content r = [])"
  shows "fst (format_page env c) = Continue
         \<and> (\<forall>st'. fst (format env st) = Inr st' \<longrightarrow>
               formatted_data st' = page_entries env cs1 @ page_entries env cs2)"
proof -
  have skip: "fst (format_page env c) = Continue"
    using assms(2-5) by (auto simp: format_page_def Let_def)
  have "formatted_data st' = page_entries env cs1 @ page_entries env cs2"
    if "fst (format env st) = Inr st'" for st'
  proof -
    have "formatted_data st' = [] @ page_entries env (cs1 @ c # cs2)"
      using format_loop_Inr [OF format_fst [OF that]] assms(1) by simp
    then show ?thesis
      using skip by (simp add: page_entries_append page_entries_Cons)
  qed
  with skip show ?thesis by blast
qed

theorem format_skips_empty_answer_witness:
  "scraped_data state_page_a = [] @ page_a # []
   \<and> metadata page_a = Some \<lparr>md_url = Some ''https://example.com/a''\<rparr>
   \<and> markdown page_a = Some ''hello'' \<and> ''hello'' \<noteq> []
   \<and> llm_invoke env_empty (summary_prompt (truncate_markdown ''hello''))
       = Inr (Some \<lparr>content = []\<rparr>)
   \<and> fst (format_page env_empty page_a) = Continue
   \<and> fst (format env_empty state_page_a) = Inr (state_page_a\<lparr>formatted_data := []\<rparr>)
   \<and> formatted_data (state_page_a\<lparr>formatted_data := []\<rparr>)
       = page_entries env_empty [] @ page_entries env_empty []"
proof -
  have h1: "scraped_data state_page_a = [] @ page_a # []"
    by (simp add: state_page_a_def)
  have h2: "metadata page_a = Some \<lparr>md_url = Some ''https://example.com/a''\<rparr>"
    by (simp add: page_a_def)
  have h3: "markdown page_a = Some ''hello''"
    by (simp add: page_a_def)
  have h4: "''hello'' \<noteq> []" by simp
  have h5: "llm_invoke env_empty (summary_prompt (truncate_markdown ''hello''))
            = Inr (Some \<lparr>content = []\<rparr>)"
    by (simp add: env_empty_def answer_empty_def)
  have h6: "fst (format env_empty state_page_a) = Inr (state_page_a\<lparr>formatted_data := []\<rparr>)"
    by (simp add: format_def format_page_def state_page_a_def page_a_def env_empty_def
        answer_empty_def initialize_def truncate_markdown_def)
  show ?thesis
    using format_skips_empty_answer [of state_page_a "[]" page_a "[]"
        "\<lparr>md_url = Some ''https://example.com/a''\<rparr>" "''hello''" env_empty]
      h1 h2 h3 h4 h5 h6
    by simp
qed

text \<open>
  C6.  For every page of \<open>scraped_data\<close> with metadata and content whose answer from
  the model is present and non-empty but makes \<^verbatim>\<open>json.loads\<close> raise
  \<^verbatim>\<open>JSONDecodeError\<close> (after stripping and taking the fenced object, if any), the loop
  appends the fallback entry, with title ``Error parsing content'' and the first 200
  characters of the truncated content as description; the page does not raise, so on
  success \<open>formatted_data\<close> holds that entry between the entries of the pages before and
  after it, and an exception of the stage comes from another page.
\<close>

theorem format_fallback_on_parse_failure:
  assumes "scraped_data st = cs1 @ c # cs2"
    and "metadata c = Some m" and "markdown c = Some md" and "md \<noteq> []"
    and "llm_invoke env (summary_prompt (truncate_markdown md)) = Inr (Some r)"
    and "content r \<noteq> []"
    and "parse_content env (content r) = Inl (JSONDecodeError msg)"
  shows "fst (format_page env c) =
           Append \<lparr>entry_url = (case md_url m of None \<Rightarrow> [] | Some u \<Rightarrow> u),
                   response = JObj [(''title'', JStr ''Error parsing content''),
                                    (''description'', JStr (take 200 (truncate_markdown md)))]\<rparr>
         \<and> (\<forall>st'. fst (format env st) = Inr st' \<longrightarrow>
               formatted_data st' =
                 page_entries env cs1 @
                 [\<lparr>entry_url = (case md_url m of None \<Rightarrow> [] | Some u \<Rightarrow> u),
                   response = JObj [(''title'', JStr ''Error parsing content''),
                                    (''description'', JStr (take 200 (truncate_markdown md)))]\<rparr>] @
                 page_entries env cs2)
         \<and> (\<forall>e. fst (format env st) = Inl e \<longrightarrow>
               (\<exists>c' \<in> set cs1 \<union> set cs2. fst (format_page env c') = Raise e))"
proof -
  let ?x = "\<lparr>entry_url = (case md_url m of None \<Rightarrow> [] | Some u \<Rightarrow> u),
             response = JObj [(''title'', JStr ''Error parsing content''),
                              (''description'', JStr (take 200 (truncate_markdown md)))]\<rparr>"
  have page: "fst (format_page env c) = Append ?x"
    using assms(2-7) by (simp add: format_page_def Let_def fallback_response_def)
  have ok: "formatted_data st' = page_entries env cs1 @ [?x] @ page_entries env cs2"
    if "fst (format env st) = Inr st'" for st'
  proof -
    have "formatted_data st' = [] @ page_entries env (cs1 @ c # cs2)"
      using format_loop_Inr [OF format_fst [OF that]] assms(1) by simp
    then show ?thesis
      using page by (simp add: page_entries_append page_entries_Cons)
  qed
  have bad: "\<exists>c' \<in> set cs1 \<union> set cs2. fst (format_page env c') = Raise e"
    if raised: "fst (format env st) = Inl e" for e
  proof -
    obtain c' where c': "c' \<in> set (cs1 @ c # cs2)" "fst (format_page env c') = Raise e"
      using format_loop_Inl [OF format_fst_Inl [OF raised]] assms(1) by auto
    with page have "c' \<noteq> c" by auto
    with c' show ?thesis by auto
  qed
  from page ok bad show ?thesis by blast
qed

theorem format_fallback_on_parse_failure_witness:
  "scraped_data state_page_a = [] @ page_a # []
   \<and> metadata page_a = Some \<lparr>md_url = Some ''https://example.com/a''\<rparr>
   \<and> markdown page_a = Some ''hello'' \<and> ''hello'' \<noteq> []
   \<and> llm_invoke env_prose (summary_prompt (truncate_markdown ''hello''))
       = Inr (Some \<lparr>content = ''Sorry, no summary.''\<rparr>)
   \<and> content \<lparr>content = ''Sorry, no summary.''\<rparr> \<noteq> []
   \<and> parse_content env_prose (content \<lparr>content = ''Sorry, no summary.''\<rparr>)
       = Inl (JSONDecodeError ''Expecting value'')
   \<and> fst (format env_prose state_page_a) =
       Inr (state_page_a\<lparr>formatted_data :=
         [\<lparr>entry_url = ''https://example.com/a'',
           response = JObj [(''title'', JStr ''Error parsing content''),
                            (''description'', JStr ''hello'')]\<rparr>]\<rparr>)
   \<and> fst (format_page env_prose page_a) =
       Append \<lparr>entry_url = ''https://example.com/a'',
               response = JObj [(''title'', JStr ''Error parsing content''),
                                (''description'', JStr ''hello'')]\<rparr>"
proof -
  have h1: "scraped_data state_page_a = [] @ page_a # []"
    by (simp add: state_page_a_def)
  have h2: "metadata page_a = Some \<lparr>md_url = Some ''https://example.com/a''\<rparr>"
    by (simp add: page_a_def)
  have h3: "markdown page_a = Some ''hello''"
    by (simp add: page_a_def)
  have h4: "''hello'' \<noteq> []" by simp
  have h5: "llm_invoke env_prose (summary_prompt (truncate_markdown ''hello''))
            = Inr (Some \<lparr>content = ''Sorry, no summary.''\<rparr>)"
    by (simp add: env_prose_def answer_prose_def)
  have h6: "content \<lparr>content = ''Sorry, no summary.''\<rparr> \<noteq> []" by simp
  have h7: "parse_content env_prose (content \<lparr>content = ''Sorry, no summary.''\<rparr>)
            = Inl (JSONDecodeError ''Expecting value'')"
    by (simp add: parse_content_def env_prose_def not_json_def Let_def)
  have t: "truncate_markdown ''hello'' = ''hello''"
    by (simp add: truncate_markdown_def)
  have h8: "fst (format env_prose state_page_a) =
       Inr (state_page_a\<lparr>formatted_data :=
         [\<lparr>entry_url = ''https://example.com/a'',
           response = JObj [(''title'', JStr ''Error parsing content''),
                            (''description'', JStr ''hello'')]\<rparr>]\<rparr>)"
    by (simp add: format_def format_page_def state_page_a_def page_a_def env_prose_def
        answer_prose_def initialize_def t parse_content_def not_json_def no_fence_def
        fallback_response_def Let_def)
  show ?thesis
    using format_fallback_on_parse_failure [of state_page_a "[]" page_a "[]"
        "\<lparr>md_url = Some ''https://example.com/a''\<rparr>" "''hello''" env_prose
        "\<lparr>content = ''Sorry, no summary.''\<rparr>" "''Expecting value''"]
      h1 h2 h3 h4 h5 h6 h7 h8 t
    by simp
qed

text \<open>
  C7.  Every prompt that \<^verbatim>\<open>format\<close> hands to the summarization capability is the
  prompt template around the content of one page of \<open>scraped_data\<close>, and that content
  is at most 2000 characters long: the first 2000 characters of the page's markdown when
  the markdown is longer than 2000 characters, and the markdown unchanged otherwise.
\<close>

theorem format_dispatch_truncated:
  assumes "p \<in> set (snd (format env st))"
  shows "\<exists>c \<in> set (scraped_data st). \<exists>md dispatched.
           markdown c = Some md
           \<and> p = prompt_prefix @ dispatched @ prompt_suffix
           \<and> length dispatched \<le> 2000
           \<and> (2000 < length md \<longrightarrow> dispatched = take 2000 md)
           \<and> (length md \<le> 2000 \<longrightarrow> dispatched = md)"
proof -
  from assms have "p \<in> set (snd (format_loop env (scraped_data st) [] []))"
    by (simp add: format_snd)
  from format_loop_sent [OF this]
  obtain c where c: "c \<in> set (scraped_data st)" "p \<in> set (snd (format_page env c))"
    by auto
  from format_page_sent [OF c(2)]
  obtain md where md: "markdown c = Some md" "p = summary_prompt (truncate_markdown md)"
    by auto
  have "length (truncate_markdown md) \<le> 2000"
    and "2000 < length md \<longrightarrow> truncate_markdown md = take 2000 md"
    and "length md \<le> 2000 \<longrightarrow> truncate_markdown md = md"
    by (auto simp: truncate_markdown_def)
  with c(1) md show ?thesis
    unfolding summary_prompt_def by blast
qed

theorem format_dispatch_truncated_witness:
  "prompt_prefix @ replicate 2000 (CHR ''x'') @ prompt_suffix
     \<in> set (snd (format env_empty state_long_page))
   \<and> snd (format env_empty state_long_page)
       = [prompt_prefix @ replicate 2000 (CHR ''x'') @ prompt_suffix]
   \<and> (\<exists>c \<in> set (scraped_data state_long_page). \<exists>md dispatched.
           markdown c = Some md
           \<and> prompt_prefix @ replicate 2000 (CHR ''x'') @ prompt_suffix
               = prompt_prefix @ dispatched @ prompt_suffix
           \<and> length dispatched \<le> 2000
           \<and> (2000 < length md \<longrightarrow> dispatched = take 2000 md)
           \<and> (length md \<le> 2000 \<longrightarrow> dispatched = md))"
proof -
  have t: "truncate_markdown (replicate 2001 (CHR ''x'')) = replicate 2000 (CHR ''x'')"
    by (simp add: truncate_markdown_def)
  have s: "snd (format env_empty state_long_page)
           = [prompt_prefix @ replicate 2000 (CHR ''x'') @ prompt_suffix]"
    by (simp add: format_def format_page_def state_long_page_def long_page_def env_empty_def
        answer_empty_def initialize_def t summary_prompt_def Let_def)
  then have h: "prompt_prefix @ replicate 2000 (CHR ''x'') @ prompt_suffix
     \<in> set (snd (format env_empty state_long_page))"
    by simp
  show ?thesis
    using format_dispatch_truncated [OF h] h s by blast
qed


section \<open>Persist: properties\<close>

text \<open>
  C8.  \<^verbatim>\<open>save\<close> writes the single record \<open>{source_url, data}\<close> to the sink and
  returns it as the result exactly when \<open>formatted_data\<close> is non-empty and \<open>url\<close> is
  set (and the write itself does not raise); if either is empty it writes nothing,
  cannot fail, and returns the state, which carries no result payload.
\<close>

theorem save_contract:
  "(url st \<noteq> [] \<and> formatted_data st \<noteq> []
      \<and> sink_write \<lparr>source_url = url st, data = formatted_data st\<rparr> = None \<longrightarrow>
      save sink_write st =
        (Inr (Result \<lparr>source_url = url st, data = formatted_data st\<rparr>),
         [\<lparr>source_url = url st, data = formatted_data st\<rparr>]))
   \<and> (url st = [] \<or> formatted_data st = [] \<longrightarrow>
        save sink_write st = (Inr (State st), []) \<and> result_payload (State st) = None)
   \<and> (\<forall>ret. fst (save sink_write st) = Inr ret \<longrightarrow>
        ((\<exists>out. ret = Result out \<and> snd (save sink_write st) = [out])
           \<longleftrightarrow> url st \<noteq> [] \<and> formatted_data st \<noteq> [])
        \<and> (result_payload ret \<noteq> None \<longleftrightarrow> url st \<noteq> [] \<and> formatted_data st \<noteq> [])
        \<and> (snd (save sink_write st) \<noteq> [] \<longleftrightarrow> url st \<noteq> [] \<and> formatted_data st \<noteq> []))"
  by (auto simp: save_def Let_def split: option.splits)

theorem save_contract_witness:
  "url state_summarised \<noteq> [] \<and> formatted_data state_summarised \<noteq> []
   \<and> sink_ok \<lparr>source_url = url state_summarised, data = formatted_data state_summarised\<rparr> = None
   \<and> save sink_ok state_summarised =
        (Inr (Result \<lparr>source_url = ''https://example.com'', data = [entry_a]\<rparr>),
         [\<lparr>source_url = ''https://example.com'', data = [entry_a]\<rparr>])
   \<and> formatted_data state_page_a = []
   \<and> save sink_ok state_page_a = (Inr (State state_page_a), [])
   \<and> result_payload (State state_page_a) = None"
proof -
  have h1: "url state_summarised = ''https://example.com''"
    and h2: "formatted_data state_summarised = [entry_a]"
    by (simp_all add: state_summarised_def initialize_def)
  have h3: "sink_ok \<lparr>source_url = url state_summarised,
                     data = formatted_data state_summarised\<rparr> = None"
    by (simp add: sink_ok_def)
  have h4: "formatted_data state_page_a = []"
    by (simp add: state_page_a_def initialize_def)
  show ?thesis
    using save_contract [of state_summarised sink_ok] save_contract [of state_page_a sink_ok]
      h1 h2 h3 h4
    by simp
qed

section \<open>Job supervisor: properties\<close>

text \<open>
  C9.  For every job id, \<^verbatim>\<open>get_job_result\<close> raises 404 when the id is not in the store,
  whatever the store holds otherwise; 425 while the job's status is pending or running;
  and 500 while the status is failed, with the stored error in the detail.
\<close>

theorem get_job_result_errors:
  "(jobs_store jid = None \<longrightarrow>
      get_job_result fmt_status validate jobs_store jid = Inl (HTTPException 404 ''Job not found''))
   \<and> (\<forall>j. jobs_store jid = Some j \<and> (status j = PENDING \<or> status j = RUNNING) \<longrightarrow>
        get_job_result fmt_status validate jobs_store jid =
          Inl (HTTPException 425
                (''Job is still '' @ fmt_status (status j) @ ''. Please wait for completion.'')))
   \<and> (\<forall>j. jobs_store jid = Some j \<and> status j = FAILED \<longrightarrow>
        get_job_result fmt_status validate jobs_store jid =
          Inl (HTTPException 500
                (''Job failed: '' @ (case job_error j of None \<Rightarrow> ''None'' | Some e \<Rightarrow> e))))"
  by (simp add: get_job_result_def)

theorem get_job_result_errors_witness:
  "store_two ''job-9'' = None
   \<and> get_job_result show_status accept store_two ''job-9''
       = Inl (HTTPException 404 ''Job not found'')
   \<and> store_two ''job-1'' = Some job_pending \<and> status job_pending = PENDING
   \<and> get_job_result show_status accept store_two ''job-1''
       = Inl (HTTPException 425 ''Job is still pending. Please wait for completion.'')
   \<and> store_two ''job-2'' = Some job_failed \<and> status job_failed = FAILED
   \<and> get_job_result show_status accept store_two ''job-2''
       = Inl (HTTPException 500 ''Job failed: boom'')"
proof -
  have h1: "store_two ''job-9'' = None"
    and h2: "store_two ''job-1'' = Some job_pending"
    and h3: "store_two ''job-2'' = Some job_failed"
    by (simp_all add: store_two_def)
  have h4: "status job_pending = PENDING" "status job_failed = FAILED"
    "job_error job_failed = Some ''boom''"
    by (simp_all add: job_pending_def job_failed_def)
  show ?thesis
    using get_job_result_errors [of store_two "''job-9''" show_status accept]
      get_job_result_errors [of store_two "''job-1''" show_status accept]
      get_job_result_errors [of store_two "''job-2''" show_status accept]
      h1 h2 h3 h4
    by simp
qed

text \<open>
  C10.  When the pipeline run returns normally without a result payload,
  \<^verbatim>\<open>scrape_sync\<close> answers with HTTP status 500 and never with a result: the exception
  ``Scraping completed but no data was returned'' raised in the \<^verbatim>\<open>try\<close> block is caught
  by the handler of the same function and raised again as a 500.
\<close>

theorem scrape_sync_no_payload_is_500:
  assumes "invoke u = Inr None"
  shows "scrape_sync invoke exc_str validate u =
           Inl (HTTPException 500
                 (''Scraping failed: '' @
                    exc_str (HTTPException 500 ''Scraping completed but no data was returned'')))"
  using assms by (simp add: scrape_sync_def sync_try_def)

theorem scrape_sync_no_payload_is_500_witness:
  "invoke_no_result ''https://example.com'' = Inr None
   \<and> scrape_sync invoke_no_result show_exn accept ''https://example.com'' =
       Inl (HTTPException 500 ''Scraping failed: Scraping completed but no data was returned'')"
proof -
  have h: "invoke_no_result ''https://example.com'' = Inr None"
    by (simp add: invoke_no_result_def)
  show ?thesis
    using scrape_sync_no_payload_is_500
        [of invoke_no_result "''https://example.com''" show_exn accept] h
    by simp
qed

text \<open>
  C4.  The job \<open>job-1\<close> is deleted while its run is suspended in \<^verbatim>\<open>graph.invoke\<close>, and
  the run then returns normally.  The completion write raises \<^verbatim>\<open>KeyError\<close>, the handler
  of \<^verbatim>\<open>run_scraping_job\<close> catches it and raises \<^verbatim>\<open>KeyError\<close> again on its own first
  write, and that exception leaves the background task.
\<close>

theorem run_scraping_job_after_delete_raises:
  "store_two ''job-1'' = Some job_pending
   \<and> delete_job (store_two(''job-1'' \<mapsto> job_pending\<lparr>status := RUNNING\<rparr>)) ''job-1''
       = Inr ((store_two(''job-1'' \<mapsto> job_pending\<lparr>status := RUNNING\<rparr>))(''job-1'' := None))
   \<and> run_scraping_job invoke_no_result show_exn ''2024-01-01T00:00:05'' delete_meanwhile
         store_two ''job-1'' ''https://example.com''
       = Inl (KeyError ''job-1'')"
  by (simp add: run_scraping_job_def run_try_def run_except_def delete_meanwhile_def
      delete_job_def store_two_def invoke_no_result_def Let_def)


section \<open>Retry supervisor: properties\<close>

lemma decorator_cases:
  assumes "try_except_decorator env s st = (st', payload)"
  shows "(failed_node st' = None \<and> retry_count st' = 0)
         \<or> (failed_node st' = Some s \<and> retry_count st' = retry_count st)"
  using assms by (auto simp: try_except_decorator_def split: sum.splits prod.splits)

lemma stage_step:
  assumes "pipeline_step budget env (Stage s, st, r) = Some (n', st', r')"
  shows "(n' \<noteq> ErrorHandler \<and> n' = on_success s st' \<and> failed_node st' = None
            \<and> retry_count st' = 0)
         \<or> (n' = ErrorHandler \<and> failed_node st' = Some s \<and> retry_count st' = retry_count st)"
proof -
  obtain st1 payload where d: "try_except_decorator env s st = (st1, payload)"
    by (cases "try_except_decorator env s st")
  with assms have n': "n' = after_stage s st1" and st': "st' = st1"
    by auto
  have "on_success s st1 \<noteq> ErrorHandler"
    by (cases s) simp_all
  with decorator_cases [OF d] n' st' show ?thesis
    by (auto simp: after_stage_def)
qed

lemma handler_step:
  assumes "pipeline_step budget env (ErrorHandler, st, r) = Some (n', st', r')"
  shows "\<exists>s. failed_node st = Some s \<and> failed_node st' = Some s
           \<and> retry_count st' = retry_count st + 1 \<and> (n' = Stage s \<or> n' = Aborted)"
  using assms by (auto simp: error_handler_def Let_def split: option.splits if_splits)

lemma reachable_invariant:
  assumes "reachable budget seed c"
  shows "0 \<le> retry_count (fst (snd c))
         \<and> (fst c = ErrorHandler \<longrightarrow> failed_node (fst (snd c)) \<noteq> None)
         \<and> (retry_count (fst (snd c)) \<noteq> 0 \<longrightarrow>
              (\<exists>s. failed_node (fst (snd c)) = Some s
                 \<and> (fst c = Stage s \<or> fst c = ErrorHandler \<or> fst c = Aborted)))"
  using assms
proof (induction rule: reachable.induct)
  case reach_start
  show ?case by (simp add: initialize_def)
next
  case (reach_step c env c')
  obtain n st r where c: "c = (n, st, r)" by (cases c)
  obtain n' st' r' where c': "c' = (n', st', r')" by (cases c')
  show ?case
  proof (cases n)
    case (Stage s)
    with reach_step.hyps(2) c c'
    have "pipeline_step budget env (Stage s, st, r) = Some (n', st', r')" by simp
    from stage_step [OF this] reach_step.IH c c' Stage show ?thesis by auto
  next
    case ErrorHandler
    with reach_step.hyps(2) c c'
    have "pipeline_step budget env (ErrorHandler, st, r) = Some (n', st', r')" by simp
    from handler_step [OF this] reach_step.IH c c' show ?thesis by auto
  next
    case Done
    with reach_step.hyps(2) c show ?thesis by simp
  next
    case Aborted
    with reach_step.hyps(2) c show ?thesis by simp
  qed
qed

text \<open>
  C2.  In every run of the pipeline (the retry supervisor and the transition table
  modelled from the spec, \<open>error_handler\<close> and \<open>initialize\<close> from the source), for every
  transition from a reachable configuration: a stage that completes and advances leaves
  \<open>retry_count\<close> at 0; a stage that faults leaves it unchanged; it increases only in
  \<open>ErrorHandler\<close>, by one, on the way back into the stage recorded in \<open>failed_node\<close>;
  and whenever it is not 0, the node that runs is that failed stage or its handler.
\<close>

theorem retry_count_discipline:
  assumes "reachable budget seed (n, st, r)"
    and "pipeline_step budget env (n, st, r) = Some (n', st', r')"
  shows "(\<forall>s. n = Stage s \<and> n' \<noteq> ErrorHandler \<longrightarrow> retry_count st' = 0)
         \<and> (\<forall>s. n = Stage s \<and> n' = ErrorHandler \<longrightarrow>
               retry_count st' = retry_count st \<and> failed_node st' = Some s)
         \<and> (retry_count st < retry_count st' \<longrightarrow>
               n = ErrorHandler \<and> retry_count st' = retry_count st + 1
               \<and> (\<exists>s. failed_node st = Some s \<and> failed_node st' = Some s
                      \<and> (n' = Stage s \<or> n' = Aborted)))
         \<and> (retry_count st \<noteq> 0 \<longrightarrow>
               (\<exists>s. failed_node st = Some s \<and> (n = Stage s \<or> n = ErrorHandler)))
         \<and> 0 \<le> retry_count st"
proof -
  have inv: "0 \<le> retry_count st"
    "retry_count st \<noteq> 0 \<longrightarrow>
       (\<exists>s. failed_node st = Some s \<and> (n = Stage s \<or> n = ErrorHandler \<or> n = Aborted))"
    using reachable_invariant [OF assms(1)] by simp_all
  show ?thesis
  proof (cases n)
    case (Stage s)
    with assms(2) have "pipeline_step budget env (Stage s, st, r) = Some (n', st', r')"
      by simp
    from stage_step [OF this] inv Stage show ?thesis by auto
  next
    case ErrorHandler
    with assms(2) have "pipeline_step budget env (ErrorHandler, st, r) = Some (n', st', r')"
      by simp
    from handler_step [OF this] inv ErrorHandler show ?thesis by auto
  next
    case Done
    with assms(2) show ?thesis by simp
  next
    case Aborted
    with assms(2) show ?thesis by simp
  qed
qed

theorem retry_count_discipline_witness:
  "reachable 3 ''https://example.com'' (Stage CRAWL, initialize ''https://example.com'', None)
   \<and> pipeline_step 3 env_down (Stage CRAWL, initialize ''https://example.com'', None)
       = Some (ErrorHandler,
               (initialize ''https://example.com'')
                 \<lparr>error := ''service down'', failed_node := Some CRAWL\<rparr>, None)
   \<and> retry_count ((initialize ''https://example.com'')
                     \<lparr>error := ''service down'', failed_node := Some CRAWL\<rparr>) = 0
   \<and> reachable 3 ''https://example.com''
        (ErrorHandler,
         (initialize ''https://example.com'')
           \<lparr>error := ''service down'', failed_node := Some CRAWL\<rparr>, None)
   \<and> pipeline_step 3 env_down
        (ErrorHandler,
         (initialize ''https://example.com'')
           \<lparr>error := ''service down'', failed_node := Some CRAWL\<rparr>, None)
       = Some (Stage CRAWL,
               (initialize ''https://example.com'')
                 \<lparr>error := [], failed_node := Some CRAWL, retry_count := 1\<rparr>, None)
   \<and> retry_count ((initialize ''https://example.com'')
                     \<lparr>error := [], failed_node := Some CRAWL, retry_count := 1\<rparr>)
       = retry_count ((initialize ''https://example.com'')
                     \<lparr>error := ''service down'', failed_node := Some CRAWL\<rparr>) + 1"
proof -
  let ?s0 = "initialize ''https://example.com''"
  let ?s1 = "?s0\<lparr>error := ''service down'', failed_node := Some CRAWL\<rparr>"
  let ?s2 = "?s0\<lparr>error := [], failed_node := Some CRAWL, retry_count := 1\<rparr>"
  have r0: "reachable 3 ''https://example.com'' (Stage CRAWL, ?s0, None)"
    by (rule reach_start)
  have p0: "pipeline_step 3 env_down (Stage CRAWL, ?s0, None) = Some (ErrorHandler, ?s1, None)"
    by (simp add: try_except_decorator_def crawl_def env_down_def crawl_down_def
        after_stage_def initialize_def Let_def)
  have r1: "reachable 3 ''https://example.com'' (ErrorHandler, ?s1, None)"
    by (rule reach_step [OF r0 p0])
  have p1: "pipeline_step 3 env_down (ErrorHandler, ?s1, None) = Some (Stage CRAWL, ?s2, None)"
    by (simp add: error_handler_def initialize_def Let_def)
  show ?thesis
    using retry_count_discipline [OF r0 p0] retry_count_discipline [OF r1 p1] r0 p0 r1 p1
    by (simp add: initialize_def)
qed


end
